theory Spec2Isabelle
  imports Main "HOL-Library.Multiset"
begin

section \<open>Data model of the record graph\<close>

text \<open>
  The classes \<open>Record\<close>, \<open>Case\<close>, \<open>Charge\<close>, \<open>Disposition\<close> and the enumeration
  \<open>DispositionStatus\<close> are imported by \<open>expunger.py\<close> but declared elsewhere. Their
  shape is taken from the attributes \<open>expunger.py\<close> reads and from section 3 of the
  specification.

  Charge objects are mutated in place by the time analysis and are shared between
  the record and the summarised groups, so they live in an explicit store and are
  referred to by address. Cases are only read, so a case is a value.
\<close>

type_synonym addr = nat

text \<open>Modelled from the spec: the enumeration \<open>DispositionStatus\<close> ("Convicted,
  Dismissed, Unrecognized"). Only \<open>UNRECOGNIZED\<close> is named by the source.\<close>

datatype DispositionStatus = CONVICTED | DISMISSED | UNRECOGNIZED

record Disposition =
  status :: DispositionStatus
  ruling :: string

text \<open>Modelled from the spec: the verdict the time analyser writes, "eligibility class
  (eligible-now, eligible-on-future-date, ineligible, indeterminate) and a
  human-readable rationale".\<close>

datatype EligibilityStatus = ELIGIBLE | WILL_BE_ELIGIBLE | INELIGIBLE | INDETERMINATE

record TimeEligibility =
  eligibility_status :: EligibilityStatus
  reason :: string

text \<open>A case: \<open>case_number\<close>, the result of \<open>closed()\<close>, and the charges it owns (by
  address).\<close>

record Case =
  case_number :: string
  closed :: bool
  charges :: "addr list"

text \<open>A charge. \<open>skip_analysis\<close> is the result of the method \<open>skip_analysis()\<close>.
  \<open>charge_case\<close> is the result of \<open>charge.case()()\<close>, the weak back-reference to the case:
  \<open>None\<close> when the reference is dead. \<open>eligibility\<close> is the slot the time analyser
  writes.\<close>

record Charge =
  disposition :: "Disposition option"
  skip_analysis :: bool
  charge_case :: "Case option"
  eligibility :: "TimeEligibility option"

record Record =
  cases :: "Case list"
  errors :: "string list"

text \<open>The store: the one record under analysis and the charge objects.\<close>

record Store =
  rcd :: Record
  charge_at :: "addr \<Rightarrow> Charge"

text \<open>Modelled from the spec: the property \<open>Record.charges\<close>, "the full flattened
  sequence of Charge across all Cases".\<close>

definition Record_charges :: "Record \<Rightarrow> addr list" where
  "Record_charges r = concat (map charges (cases r))"

datatype py_error = AttributeError

section \<open>Python strings and sets of strings\<close>

text \<open>\<open>sep.join(xs)\<close>\<close>

fun str_join :: "string \<Rightarrow> string list \<Rightarrow> string" where
  "str_join sep [] = []"
| "str_join sep [x] = x"
| "str_join sep (x # y # ys) = x @ sep @ str_join sep (y # ys)"

text \<open>
  A Python \<open>set\<close> of strings is represented by the list of its elements without
  repetition. \<open>set_add\<close> is \<open>s.add(x)\<close>. Python does not fix the order in which a set
  is iterated: it follows the hashes of the elements. The order is therefore a
  parameter, a hash function \<open>hash\<close>, and \<open>set_iter hash s\<close> enumerates the set by
  increasing hash. Every enumeration of a set arises from some \<open>hash\<close>.
\<close>

type_synonym str_set = "string list"

definition set_add :: "string \<Rightarrow> str_set \<Rightarrow> str_set" where
  "set_add x s = (if x \<in> set s then s else s @ [x])"

definition set_iter :: "(string \<Rightarrow> nat) \<Rightarrow> str_set \<Rightarrow> string list" where
  "set_iter hash s = sort_key hash s"

text \<open>\<open>s.pop()\<close> on a set: the first element the iteration meets. The source calls
  it only under \<open>len(s) == 1\<close>.\<close>

definition set_pop :: "(string \<Rightarrow> nat) \<Rightarrow> str_set \<Rightarrow> string" where
  "set_pop hash s = hd (set_iter hash s)"

section \<open>Collaborators\<close>

text \<open>Modelled from the spec: \<open>ChargeWithSummary\<close>, "an ordered grouping of one or more
  Charges plus any metadata the grouping computed"; the charges are the record's
  own objects, hence addresses.\<close>

record ChargeWithSummary =
  grouped :: "addr list"
  summary :: string

text \<open>Modelled from the spec: the contract of \<open>ChargesSummarizer.summarize\<close>, "every
  analyzable charge appears in exactly one group". The summariser itself is a
  parameter of the constructor.\<close>

definition summarized :: "ChargeWithSummary list \<Rightarrow> addr list \<Rightarrow> bool" where
  "summarized groups analyzable = (mset (concat (map grouped groups)) = mset analyzable)"

text \<open>Modelled from the spec: \<open>TimeAnalyzer.evaluate\<close>. "Output is entirely via
  mutation: each Charge's eligibility slot is set ... to a verdict value"; it "must
  not mutate case or record state, and must not throw". The verdict rule is a
  parameter: it sees the charges as they were, the groups and the charge's address.\<close>

type_synonym verdict = "(addr \<Rightarrow> Charge) \<Rightarrow> ChargeWithSummary list \<Rightarrow> addr \<Rightarrow> TimeEligibility"

definition TimeAnalyzer_evaluate ::
  "verdict \<Rightarrow> ChargeWithSummary list \<Rightarrow> (addr \<Rightarrow> Charge) \<Rightarrow> (addr \<Rightarrow> Charge)" where
  "TimeAnalyzer_evaluate v groups h =
     fold (\<lambda>a h'. h'(a := (h' a)\<lparr>eligibility := Some (v h groups a)\<rparr>))
          (concat (map grouped groups)) h"

section \<open>Expunger\<close>

record Expunger =
  charges_with_summary :: "ChargeWithSummary list"

text \<open>\<open>Expunger._without_skippable_charges\<close>\<close>

definition without_skippable_charges :: "(addr \<Rightarrow> Charge) \<Rightarrow> addr list \<Rightarrow> addr list" where
  "without_skippable_charges h chs =
     filter (\<lambda>charge. \<not> skip_analysis (h charge) \<and> disposition (h charge) \<noteq> None) chs"

text \<open>\<open>Expunger.__init__\<close>; \<open>self.record\<close> is the record of the store.\<close>

definition Expunger_init ::
  "((addr \<Rightarrow> Charge) \<Rightarrow> addr list \<Rightarrow> ChargeWithSummary list) \<Rightarrow> Store \<Rightarrow> Expunger" where
  "Expunger_init summarize s =
     (let analyzable_charges = without_skippable_charges (charge_at s) (Record_charges (rcd s))
      in \<lparr>charges_with_summary = summarize (charge_at s) analyzable_charges\<rparr>)"

text \<open>The loop of \<open>Expunger._filter_cases_with_errors\<close>, with the two sets as
  accumulators. Reading \<open>case_number\<close> of a dead back-reference raises.\<close>

fun filter_loop ::
  "(addr \<Rightarrow> Charge) \<Rightarrow> addr list \<Rightarrow> str_set \<Rightarrow> str_set \<Rightarrow> py_error + (str_set \<times> str_set)" where
  "filter_loop h [] missing unrecognized = Inr (missing, unrecognized)"
| "filter_loop h (charge # rest) missing unrecognized =
     (if \<not> skip_analysis (h charge) then
        (case charge_case (h charge) of
           None \<Rightarrow> Inl AttributeError
         | Some c \<Rightarrow>
             (if disposition (h charge) = None \<and> closed c then
                filter_loop h rest (set_add (case_number c) missing) unrecognized
              else
                (case disposition (h charge) of
                   Some d \<Rightarrow>
                     (if status d = UNRECOGNIZED then
                        filter_loop h rest missing
                          (set_add (case_number c @ '': '' @ ruling d) unrecognized)
                      else filter_loop h rest missing unrecognized)
                 | None \<Rightarrow> filter_loop h rest missing unrecognized)))
      else filter_loop h rest missing unrecognized)"

definition filter_cases_with_errors ::
  "(addr \<Rightarrow> Charge) \<Rightarrow> addr list \<Rightarrow> py_error + (str_set \<times> str_set)" where
  "filter_cases_with_errors h chs = filter_loop h chs [] []"

abbreviation NL :: string where
  "NL \<equiv> [CHR 0x0A]"

text \<open>\<open>Expunger._build_disposition_error_message\<close>\<close>

definition build_disposition_error_message ::
  "(string \<Rightarrow> nat) \<Rightarrow> str_set \<Rightarrow> string \<Rightarrow> string" where
  "build_disposition_error_message hash error_cases disposition_error_name =
     (if length error_cases = 1 then
        ''Case '' @ set_pop hash error_cases @ '' has a charge with ''
          @ disposition_error_name @ '' disposition.'' @ NL
          @ ''This might be an error in the OECI database. Time analysis is ignoring this charge and may be inaccurate for other charges.''
      else
        (let cases_list_string = str_join '', '' (set_iter hash error_cases)
         in ''The following cases have charges with '' @ disposition_error_name
              @ '' disposition.'' @ NL
              @ ''This might be an error in the OECI database. Time analysis is ignoring these charges and may be inaccurate for other charges.''
              @ NL @ ''Case numbers: '' @ cases_list_string))"

text \<open>\<open>Expunger._build_disposition_errors\<close>\<close>

definition build_disposition_errors ::
  "(string \<Rightarrow> nat) \<Rightarrow> (addr \<Rightarrow> Charge) \<Rightarrow> addr list \<Rightarrow> py_error + string list" where
  "build_disposition_errors hash h chs =
     (case filter_cases_with_errors h chs of
        Inl e \<Rightarrow> Inl e
      | Inr (cases_with_missing_disposition, cases_with_unrecognized_disposition) \<Rightarrow>
          Inr ((if cases_with_missing_disposition \<noteq> [] then
                  [build_disposition_error_message hash cases_with_missing_disposition ''a missing'']
                else [])
               @ (if cases_with_unrecognized_disposition \<noteq> [] then
                    [build_disposition_error_message hash cases_with_unrecognized_disposition
                       ''an unrecognized'']
                  else [])))"

definition open_case_message :: "string \<Rightarrow> string" where
  "open_case_message case_numbers =
     ''All charges are ineligible because there is one or more open case: '' @ case_numbers
       @ ''. Open cases with valid dispositions are still included in time analysis. Otherwise they are ignored, so time analysis may be inaccurate for other charges.''"

definition add_errors :: "string list \<Rightarrow> Store \<Rightarrow> Store" where
  "add_errors es s = s\<lparr>rcd := (rcd s)\<lparr>errors := errors (rcd s) @ es\<rparr>\<rparr>"

definition open_cases_of :: "Record \<Rightarrow> Case list" where
  "open_cases_of r = filter (\<lambda>c. \<not> closed c) (cases r)"

text \<open>\<open>Expunger.run\<close>: the result is the returned boolean or the exception raised,
  together with the store as the call leaves it.\<close>

definition run ::
  "(string \<Rightarrow> nat) \<Rightarrow> verdict \<Rightarrow> Expunger \<Rightarrow> Store \<Rightarrow> (py_error + bool) \<times> Store" where
  "run hash v self s =
     (let open_cases = open_cases_of (rcd s);
          s1 = (if length open_cases > 0 then
                  add_errors [open_case_message (str_join '','' (map case_number open_cases))] s
                else s)
      in case build_disposition_errors hash (charge_at s1) (Record_charges (rcd s1)) of
           Inl e \<Rightarrow> (Inl e, s1)
         | Inr record_errors \<Rightarrow>
             (let s2 = add_errors record_errors s1;
                  s3 = s2\<lparr>charge_at :=
                         TimeAnalyzer_evaluate v (charges_with_summary self) (charge_at s2)\<rparr>
              in (Inr (length open_cases = 0), s3)))"

text \<open>The data-model invariant the source relies on: the back-reference of every
  charge of the record is alive and is the case that owns the charge.\<close>

definition owned :: "Store \<Rightarrow> bool" where
  "owned s = list_all (\<lambda>c. list_all (\<lambda>a. charge_case (charge_at s a) = Some c) (charges c))
                      (cases (rcd s))"

text \<open>What \<open>run\<close> needs of it: the back-reference of every charge of the record that is
  not skipped is alive.\<close>

definition refs_live :: "Store \<Rightarrow> bool" where
  "refs_live s = list_all (\<lambda>a. skip_analysis (charge_at s a) \<or> charge_case (charge_at s a) \<noteq> None)
                    (Record_charges (rcd s))"

text \<open>An error string is the open-case diagnostic when it starts with the fixed text of
  that message.\<close>

definition is_open_case_diagnostic :: "string \<Rightarrow> bool" where
  "is_open_case_diagnostic e =
     (take 67 e = ''All charges are ineligible because there is one or more open case: '')"

section \<open>A sample record\<close>

text \<open>An open case with an undisposed charge, a closed case with an undisposed charge
  and a charge of unrecognised disposition, and a closed case with a convicted charge
  and a skipped one, and an open case
  without charges.\<close>

definition case_A :: Case where
  "case_A = \<lparr>case_number = ''A1'', closed = False, charges = [0]\<rparr>"

definition case_B :: Case where
  "case_B = \<lparr>case_number = ''B2'', closed = True, charges = [1, 2]\<rparr>"

definition case_C :: Case where
  "case_C = \<lparr>case_number = ''C3'', closed = True, charges = [3, 4]\<rparr>"

definition case_D :: Case where
  "case_D = \<lparr>case_number = ''D4'', closed = False, charges = []\<rparr>"

definition sample_charges :: "addr \<Rightarrow> Charge" where
  "sample_charges a =
     (if a = 0 then \<lparr>disposition = None, skip_analysis = False, charge_case = Some case_A,
                     eligibility = None\<rparr>
      else if a = 1 then \<lparr>disposition = None, skip_analysis = False, charge_case = Some case_B,
                          eligibility = None\<rparr>
      else if a = 2 then \<lparr>disposition = Some \<lparr>status = UNRECOGNIZED, ruling = ''Foo''\<rparr>,
                          skip_analysis = False, charge_case = Some case_B, eligibility = None\<rparr>
      else if a = 3 then \<lparr>disposition = Some \<lparr>status = CONVICTED, ruling = ''Convicted''\<rparr>,
                          skip_analysis = False, charge_case = Some case_C, eligibility = None\<rparr>
      else \<lparr>disposition = None, skip_analysis = True, charge_case = Some case_C,
             eligibility = None\<rparr>)"

definition sample_store :: Store where
  "sample_store = \<lparr>rcd = \<lparr>cases = [case_A, case_B, case_C, case_D], errors = [''earlier'']\<rparr>,
                    charge_at = sample_charges\<rparr>"

definition sample_hash :: "string \<Rightarrow> nat" where
  "sample_hash x = length x"

definition sample_verdict :: verdict where
  "sample_verdict h groups a = \<lparr>eligibility_status = INDETERMINATE, reason = ''no date''\<rparr>"

definition sample_summarize :: "(addr \<Rightarrow> Charge) \<Rightarrow> addr list \<Rightarrow> ChargeWithSummary list" where
  "sample_summarize h chs = map (\<lambda>a. \<lparr>grouped = [a], summary = ''single''\<rparr>) chs"

text \<open>One closed case with two charges of unrecognised disposition and different
  ruling texts.\<close>

definition case_E :: Case where
  "case_E = \<lparr>case_number = ''C1'', closed = True, charges = [0, 1]\<rparr>"

definition twice_charges :: "addr \<Rightarrow> Charge" where
  "twice_charges a =
     (if a = 0 then \<lparr>disposition = Some \<lparr>status = UNRECOGNIZED, ruling = ''Foo''\<rparr>,
                     skip_analysis = False, charge_case = Some case_E, eligibility = None\<rparr>
      else \<lparr>disposition = Some \<lparr>status = UNRECOGNIZED, ruling = ''Bar''\<rparr>,
             skip_analysis = False, charge_case = Some case_E, eligibility = None\<rparr>)"

text \<open>Charges of that case without disposition.\<close>

definition undisposed_charges :: "addr \<Rightarrow> Charge" where
  "undisposed_charges a =
     \<lparr>disposition = None, skip_analysis = False, charge_case = Some case_E, eligibility = None\<rparr>"

text \<open>The number of places of a text at which a given word starts.\<close>

fun occurrences :: "string \<Rightarrow> string \<Rightarrow> nat" where
  "occurrences w [] = (if w = [] then 1 else 0)"
| "occurrences w (c # cs) = (if take (length w) (c # cs) = w then 1 else 0) + occurrences w cs"

section \<open>The user-creation endpoint\<close>

text \<open>
  \<open>Users.post\<close> of \<open>endpoints/users.py\<close>. A parsed JSON value; a Python \<open>str\<close> is the list
  of its code points, which is what \<open>len\<close> counts. An object is the list of its items.
  \<open>JNull\<close> is Python's \<open>None\<close>.
\<close>

type_synonym unicode = "nat list"

datatype json = JNull | JBool bool | JNum int | JStr unicode | JArr "json list"
  | JObj "(string \<times> json) list"

text \<open>What a call can raise. \<open>HTTPException\<close> is the abort of the request with a status
  code and a message.\<close>

datatype exn = HTTPException nat string | UniqueViolation | TypeError | KeyError string
  | OtherError string

text \<open>\<open>error(code, message)\<close> of \<open>expungeservice.request.error\<close> is imported, not
  defined, by \<open>users.py\<close>. It is taken to abort the request with the given status, which
  is what the docstring of \<open>post\<close> says of it ("Otherwise return 422").\<close>

definition error :: "nat \<Rightarrow> string \<Rightarrow> exn" where
  "error code message = HTTPException code message"

text \<open>\<open>data[key]\<close> for a string key, and \<open>len(x)\<close>.\<close>

fun subscript :: "json \<Rightarrow> string \<Rightarrow> exn + json" where
  "subscript (JObj items) key =
     (case map_of items key of None \<Rightarrow> Inl (KeyError key) | Some v \<Rightarrow> Inr v)"
| "subscript x key = Inl TypeError"

fun py_len :: "json \<Rightarrow> exn + nat" where
  "py_len (JStr s) = Inr (length s)"
| "py_len (JArr xs) = Inr (length xs)"
| "py_len (JObj items) = Inr (length items)"
| "py_len x = Inl TypeError"

text \<open>The effects of a request: the user table behind \<open>g.database\<close>, and the calls
  made to \<open>generate_password_hash\<close> and to \<open>user.create\<close>, in order.\<close>

datatype call = Call_generate_password_hash json
  | Call_user_create json json json string json

record World =
  database :: "json list"
  calls :: "call list"

record Request =
  get_json :: json

text \<open>The functions \<open>users.py\<close> imports: the decorator \<open>admin_auth_required\<close> (the
  exception it aborts with, if any), \<open>check_data_fields\<close> (likewise),
  \<open>generate_password_hash\<close> and \<open>user.create\<close>. None is under the sources at hand, so
  each is a parameter.\<close>

record Collaborators =
  admin_auth_required :: "Request \<Rightarrow> World \<Rightarrow> exn option"
  check_data_fields :: "json \<Rightarrow> string list \<Rightarrow> exn option"
  generate_password_hash :: "json \<Rightarrow> exn + string"
  user_create ::
    "json list \<Rightarrow> json \<Rightarrow> json \<Rightarrow> json \<Rightarrow> string \<Rightarrow> json \<Rightarrow> (exn + json) \<times> json list"

text \<open>Lines 38 to 61 of \<open>post\<close>: hash the password, create the user, answer 201.\<close>

definition create_and_respond ::
  "Collaborators \<Rightarrow> json \<Rightarrow> json \<Rightarrow> World \<Rightarrow> (exn + (json \<times> nat)) \<times> World" where
  "create_and_respond deps data password w =
     (let w1 = w\<lparr>calls := calls w @ [Call_generate_password_hash password]\<rparr> in
      case generate_password_hash deps password of
        Inl e \<Rightarrow> (Inl e, w1)
      | Inr password_hash \<Rightarrow>
      (case subscript data ''email'' of Inl e \<Rightarrow> (Inl e, w1) | Inr email \<Rightarrow>
      (case subscript data ''name'' of Inl e \<Rightarrow> (Inl e, w1) | Inr name \<Rightarrow>
      (case subscript data ''group_name'' of Inl e \<Rightarrow> (Inl e, w1) | Inr group_name \<Rightarrow>
      (case subscript data ''admin'' of Inl e \<Rightarrow> (Inl e, w1) | Inr admin \<Rightarrow>
        (let w2 = w1\<lparr>calls := calls w1
                      @ [Call_user_create email name group_name password_hash admin]\<rparr>;
             created = user_create deps (database w2) email name group_name password_hash admin;
             w3 = w2\<lparr>database := snd created\<rparr>
         in case fst created of
              Inl UniqueViolation \<Rightarrow>
                (Inl (error 422 ''User with that email address already exists''), w3)
            | Inl e \<Rightarrow> (Inl e, w3)
            | Inr create_user_result \<Rightarrow>
              (case subscript create_user_result ''email'' of Inl e \<Rightarrow> (Inl e, w3) | Inr r_email \<Rightarrow>
              (case subscript create_user_result ''admin'' of Inl e \<Rightarrow> (Inl e, w3) | Inr r_admin \<Rightarrow>
              (case subscript create_user_result ''date_created'' of Inl e \<Rightarrow> (Inl e, w3)
               | Inr r_date \<Rightarrow>
                 (Inr (JObj [(''email'', r_email), (''admin'', r_admin), (''timestamp'', r_date)],
                       201), w3))))))))))"

text \<open>The body of \<open>post\<close>, lines 26 to 36, then the rest.\<close>

definition post_body ::
  "Collaborators \<Rightarrow> Request \<Rightarrow> World \<Rightarrow> (exn + (json \<times> nat)) \<times> World" where
  "post_body deps request w =
     (let data = get_json request in
      if data = JNull then (Inl (error 400 ''No json data in request body''), w)
      else
        (case check_data_fields deps data
                [''email'', ''name'', ''group_name'', ''password'', ''admin''] of
           Some e \<Rightarrow> (Inl e, w)
         | None \<Rightarrow>
           (case subscript data ''password'' of
              Inl e \<Rightarrow> (Inl e, w)
            | Inr password \<Rightarrow>
              (case py_len password of
                 Inl e \<Rightarrow> (Inl e, w)
               | Inr n \<Rightarrow>
                   if n < 8 then
                     (Inl (error 422 ''New password is less than 8 characters long!''), w)
                   else create_and_respond deps data password w))))"

text \<open>\<open>Users.post\<close>: the body behind the decorator.\<close>

definition Users_post ::
  "Collaborators \<Rightarrow> Request \<Rightarrow> World \<Rightarrow> (exn + (json \<times> nat)) \<times> World" where
  "Users_post deps request w =
     (case admin_auth_required deps request w of
        Some e \<Rightarrow> (Inl e, w)
      | None \<Rightarrow> post_body deps request w)"

text \<open>Sample collaborators. The field check follows the docstring of \<open>post\<close>: "If
  required fields are missing in the request, return 400".\<close>

definition sample_check_data_fields :: "json \<Rightarrow> string list \<Rightarrow> exn option" where
  "sample_check_data_fields data required_fields =
     (if list_all (\<lambda>f. case subscript data f of Inl e \<Rightarrow> False | Inr v \<Rightarrow> True)
           required_fields
      then None
      else Some (error 400 ''missing one or more required fields''))"

definition sample_user_create ::
  "json list \<Rightarrow> json \<Rightarrow> json \<Rightarrow> json \<Rightarrow> string \<Rightarrow> json \<Rightarrow> (exn + json) \<times> json list" where
  "sample_user_create db email name group_name password_hash admin =
     (if list_ex (\<lambda>row. subscript row ''email'' = Inr email) db then (Inl UniqueViolation, db)
      else
        (let row = JObj [(''email'', email), (''admin'', admin), (''date_created'', JNum 0)]
         in (Inr row, db @ [row])))"

definition sample_deps :: Collaborators where
  "sample_deps = \<lparr>admin_auth_required = (\<lambda>request w. None),
                   check_data_fields = sample_check_data_fields,
                   generate_password_hash = (\<lambda>p. Inr ''hashed''),
                   user_create = sample_user_create\<rparr>"

definition empty_world :: World where
  "empty_world = \<lparr>database = [], calls = []\<rparr>"

text \<open>A request with all five fields and the seven-character password \<open>short77\<close>, one
  with the password alone, and one with a password of eight characters.\<close>

definition short_password :: json where
  "short_password = JStr [115, 104, 111, 114, 116, 55, 55]"

definition full_request :: Request where
  "full_request = \<lparr>get_json = JObj [(''email'', JStr [97]), (''name'', JStr [98]),
      (''group_name'', JStr [99]), (''password'', short_password), (''admin'', JBool False)]\<rparr>"

definition bare_request :: Request where
  "bare_request = \<lparr>get_json = JObj [(''password'', short_password)]\<rparr>"

definition long_request :: Request where
  "long_request = \<lparr>get_json = JObj [(''email'', JStr [97]), (''name'', JStr [98]),
      (''group_name'', JStr [99]), (''password'', JStr [49, 50, 51, 52, 53, 54, 55, 56]),
      (''admin'', JBool False)]\<rparr>"

section \<open>Properties of the sets and of the classification loop\<close>

lemma set_add_set: "set (set_add x s) = insert x (set s)"
  by (auto simp: set_add_def)

lemma set_add_distinct: "distinct s \<Longrightarrow> distinct (set_add x s)"
  by (simp add: set_add_def)


lemma set_iter_distinct: "distinct (set_iter hash s) = distinct s"
  by (simp add: set_iter_def)

lemma filter_loop_total:
  "list_all (\<lambda>a. skip_analysis (h a) \<or> charge_case (h a) \<noteq> None) chs \<Longrightarrow>
   \<exists>m' u'. filter_loop h chs m u = Inr (m', u')"
  by (induction chs arbitrary: m u) (auto split: option.splits)

lemma filter_loop_distinct:
  "filter_loop h chs m u = Inr (m', u') \<Longrightarrow> distinct m \<Longrightarrow> distinct u \<Longrightarrow>
   distinct m' \<and> distinct u'"
  by (induction chs arbitrary: m u)
     (auto split: option.splits if_splits simp: set_add_distinct)

lemma filter_loop_missing:
  "filter_loop h chs m u = Inr (m', u') \<Longrightarrow>
   set m' = set m \<union> {cn. \<exists>a\<in>set chs. \<not> skip_analysis (h a) \<and> disposition (h a) = None \<and>
       (\<exists>c. charge_case (h a) = Some c \<and> closed c \<and> case_number c = cn)}"
proof (induction chs arbitrary: m u)
  case Nil
  then show ?case by simp
next
  case (Cons a chs)
  then show ?case
    by (auto split: option.splits if_splits simp: set_add_set)
qed

lemma filter_loop_unrecognized:
  "filter_loop h chs m u = Inr (m', u') \<Longrightarrow>
   set u' = set u \<union> {x. \<exists>a\<in>set chs. \<not> skip_analysis (h a) \<and>
       (\<exists>c d. charge_case (h a) = Some c \<and> disposition (h a) = Some d
              \<and> status d = UNRECOGNIZED \<and> x = case_number c @ '': '' @ ruling d)}"
proof (induction chs arbitrary: m u)
  case Nil
  then show ?case by simp
next
  case (Cons a chs)
  then show ?case
    by (auto split: option.splits if_splits simp: set_add_set)
qed


lemma open_diag: "is_open_case_diagnostic (open_case_message cn)"
  by (simp add: is_open_case_diagnostic_def open_case_message_def)


lemma build_errors_total:
  "list_all (\<lambda>a. skip_analysis (h a) \<or> charge_case (h a) \<noteq> None) chs \<Longrightarrow>
   \<exists>errs. build_disposition_errors hash h chs = Inr errs"
  using filter_loop_total [of h chs "[]" "[]"]
  by (auto simp: build_disposition_errors_def filter_cases_with_errors_def)

lemma open_cases_empty: "(open_cases_of r = []) = (\<forall>c\<in>set (cases r). closed c)"
  by (auto simp: open_cases_of_def filter_empty_conv)

section \<open>The two ways \<open>run\<close> ends\<close>

lemma run_returns:
  "build_disposition_errors hash (charge_at s) (Record_charges (rcd s)) = Inr errs \<Longrightarrow>
   run hash v self s =
     (Inr (open_cases_of (rcd s) = []),
      s\<lparr>rcd := (rcd s)\<lparr>errors := errors (rcd s)
             @ (if open_cases_of (rcd s) \<noteq> [] then
                  [open_case_message (str_join '','' (map case_number (open_cases_of (rcd s))))]
                else [])
             @ errs\<rparr>,
        charge_at := TimeAnalyzer_evaluate v (charges_with_summary self) (charge_at s)\<rparr>)"
  by (simp add: run_def Let_def add_errors_def Record_charges_def)

lemma run_raises:
  "build_disposition_errors hash (charge_at s) (Record_charges (rcd s)) = Inl e \<Longrightarrow>
   run hash v self s =
     (Inl e,
      s\<lparr>rcd := (rcd s)\<lparr>errors := errors (rcd s)
             @ (if open_cases_of (rcd s) \<noteq> [] then
                  [open_case_message (str_join '','' (map case_number (open_cases_of (rcd s))))]
                else [])\<rparr>\<rparr>)"
  by (simp add: run_def Let_def add_errors_def Record_charges_def)

lemmas sample_defs = case_A_def case_B_def case_C_def case_D_def sample_charges_def sample_store_def
  sample_hash_def sample_verdict_def sample_summarize_def

section \<open>The returned signal\<close>

text \<open>
  C1. \<open>run\<close> returns true exactly when every case of the record is closed. On a
  record whose live back-references let the call complete, the returned value is
  that boolean; and whenever the call returns at all, it returns that boolean. The
  value is fixed by the \<open>closed\<close> flags alone: the charges, their dispositions, the
  verdict rule \<open>v\<close> and the groups held by \<open>self\<close> do not enter it.
\<close>

theorem run_true_iff_no_open_cases:
  "(refs_live s \<longrightarrow> fst (run hash v self s) = Inr (\<forall>c\<in>set (cases (rcd s)). closed c)) \<and>
   (\<forall>b. fst (run hash v self s) = Inr b \<longrightarrow> b = (\<forall>c\<in>set (cases (rcd s)). closed c))"
proof (cases "build_disposition_errors hash (charge_at s) (Record_charges (rcd s))")
  case (Inl e)
  have "\<not> refs_live s"
    using Inl build_errors_total [of "charge_at s" "Record_charges (rcd s)" hash]
    by (auto simp: refs_live_def)
  then show ?thesis
    by (simp add: run_raises [OF Inl])
next
  case (Inr errs)
  show ?thesis
    by (simp add: run_returns [OF Inr] open_cases_empty)
qed

theorem run_true_iff_no_open_cases_witness:
  "refs_live sample_store \<and>
   fst (run sample_hash sample_verdict (Expunger_init sample_summarize sample_store) sample_store)
     = Inr False \<and>
   fst (run sample_hash sample_verdict (Expunger_init sample_summarize sample_store)
          (sample_store\<lparr>rcd := \<lparr>cases = [case_B, case_C], errors = []\<rparr>\<rparr>))
     = Inr True"
proof -
  have live: "refs_live sample_store"
    by (simp add: refs_live_def Record_charges_def sample_defs)
  have live': "refs_live (sample_store\<lparr>rcd := \<lparr>cases = [case_B, case_C], errors = []\<rparr>\<rparr>)"
    by (simp add: refs_live_def Record_charges_def sample_defs)
  show ?thesis
    using live live'
      run_true_iff_no_open_cases [of sample_store sample_hash sample_verdict
        "Expunger_init sample_summarize sample_store"]
      run_true_iff_no_open_cases
        [of "sample_store\<lparr>rcd := \<lparr>cases = [case_B, case_C], errors = []\<rparr>\<rparr>"
          sample_hash sample_verdict "Expunger_init sample_summarize sample_store"]
    by (simp add: sample_store_def case_A_def case_B_def case_C_def case_D_def)
qed

lemma owned_refs_live: "owned s \<Longrightarrow> refs_live s"
  by (auto simp: owned_def refs_live_def Record_charges_def list_all_iff)

section \<open>The open-case diagnostic\<close>



section \<open>Order and number of the diagnostics\<close>

text \<open>
  C5. When the classification yields the sets \<open>m\<close> (missing disposition) and \<open>u\<close>
  (unrecognised disposition), the error log after \<open>run\<close> is the log before, then the
  open-case diagnostic if a case is open, then one message for \<open>m\<close> if \<open>m\<close> is not
  empty, then one message for \<open>u\<close> if \<open>u\<close> is not empty; an empty set adds nothing.
\<close>

theorem disposition_diagnostics_appended:
  assumes "filter_cases_with_errors (charge_at s) (Record_charges (rcd s)) = Inr (m, u)"
  shows "errors (rcd (snd (run hash v self s)))
         = errors (rcd s)
           @ (if \<exists>c\<in>set (cases (rcd s)). \<not> closed c then
                [open_case_message
                   (str_join '','' (map case_number (filter (\<lambda>c. \<not> closed c) (cases (rcd s)))))]
              else [])
           @ (if m \<noteq> [] then [build_disposition_error_message hash m ''a missing''] else [])
           @ (if u \<noteq> [] then [build_disposition_error_message hash u ''an unrecognized'']
              else [])"
proof -
  have errs: "build_disposition_errors hash (charge_at s) (Record_charges (rcd s))
      = Inr ((if m \<noteq> [] then [build_disposition_error_message hash m ''a missing''] else [])
           @ (if u \<noteq> [] then [build_disposition_error_message hash u ''an unrecognized'']
              else []))"
    using assms by (simp add: build_disposition_errors_def)
  show ?thesis
    by (simp add: run_returns [OF errs] open_cases_empty) (simp add: open_cases_of_def)
qed

lemma sample_sets:
  "filter_cases_with_errors (charge_at sample_store) (Record_charges (rcd sample_store))
     = Inr ([''B2''], [''B2: Foo''])"
  by (simp add: filter_cases_with_errors_def Record_charges_def set_add_def sample_defs)

theorem disposition_diagnostics_appended_witness:
  "filter_cases_with_errors (charge_at sample_store) (Record_charges (rcd sample_store))
     = Inr ([''B2''], [''B2: Foo'']) \<and>
   errors (rcd (snd (run sample_hash sample_verdict
                       (Expunger_init sample_summarize sample_store) sample_store)))
     = [''earlier'',
        ''All charges are ineligible because there is one or more open case: A1,D4. Open cases with valid dispositions are still included in time analysis. Otherwise they are ignored, so time analysis may be inaccurate for other charges.'',
        ''Case B2 has a charge with a missing disposition.'' @ NL @ ''This might be an error in the OECI database. Time analysis is ignoring this charge and may be inaccurate for other charges.'',
        ''Case B2: Foo has a charge with an unrecognized disposition.'' @ NL @ ''This might be an error in the OECI database. Time analysis is ignoring this charge and may be inaccurate for other charges.'']"
  using sample_sets
    disposition_diagnostics_appended [OF sample_sets, of sample_hash sample_verdict
      "Expunger_init sample_summarize sample_store"]
  by (simp add: sample_store_def case_A_def case_B_def case_C_def case_D_def
        open_case_message_def build_disposition_error_message_def set_pop_def set_iter_def)

section \<open>Completion\<close>

text \<open>
  C9. On every store that satisfies the ownership invariant of the data model, \<open>run\<close>
  completes and returns a boolean; open cases, absent dispositions and unrecognised
  statuses do not make it raise. The time analyser is total, as its contract states.
\<close>

theorem run_never_raises:
  assumes "owned s"
  shows "\<exists>b. fst (run hash v self s) = Inr b"
proof -
  have "refs_live s"
    using assms by (rule owned_refs_live)
  then obtain errs
    where errs: "build_disposition_errors hash (charge_at s) (Record_charges (rcd s)) = Inr errs"
    using build_errors_total [of "charge_at s" "Record_charges (rcd s)" hash]
    by (auto simp: refs_live_def)
  show ?thesis
    by (simp add: run_returns [OF errs])
qed

theorem run_never_raises_witness:
  "owned sample_store \<and>
   (\<exists>b. fst (run sample_hash sample_verdict (Expunger_init sample_summarize sample_store)
               sample_store) = Inr b)"
proof -
  have o: "owned sample_store"
    by (simp add: owned_def sample_defs)
  show ?thesis
    using o run_never_raises [OF o] by blast
qed

lemma filter_loop_append:
  "filter_loop h (xs @ ys) m u =
     (case filter_loop h xs m u of Inl e \<Rightarrow> Inl e | Inr (m', u') \<Rightarrow> filter_loop h ys m' u')"
  by (induction xs arbitrary: m u) (auto split: option.splits)

lemma filter_loop_skip_one:
  "skip_analysis (h a) \<or> (disposition (h a) = None \<and> (\<exists>c. charge_case (h a) = Some c \<and> \<not> closed c))
   \<Longrightarrow> filter_loop h (a # rest) m u = filter_loop h rest m u"
  by auto

section \<open>Which charges are reported\<close>

text \<open>
  C3. A case number is in the missing-disposition set exactly when some charge of the
  list is not skipped, has no disposition, and has a closed case (the case its
  back-reference gives, which under the ownership invariant is its owning case) with
  that number. A skipped charge, and a charge without disposition on an open case,
  contribute nothing: the classification of the list is the classification of the
  list without that charge.
\<close>

theorem missing_disposition_contributors:
  "(filter_cases_with_errors h chs = Inr (m, u) \<longrightarrow>
      (\<forall>cn. cn \<in> set m \<longleftrightarrow>
         (\<exists>a\<in>set chs. \<not> skip_analysis (h a) \<and> disposition (h a) = None \<and>
            (\<exists>c. charge_case (h a) = Some c \<and> closed c \<and> case_number c = cn)))) \<and>
   (skip_analysis (h a) \<or>
      (disposition (h a) = None \<and> (\<exists>c. charge_case (h a) = Some c \<and> \<not> closed c)) \<longrightarrow>
      filter_cases_with_errors h (pre @ a # post) = filter_cases_with_errors h (pre @ post))"
proof (intro conjI impI)
  assume r: "filter_cases_with_errors h chs = Inr (m, u)"
  then have "filter_loop h chs [] [] = Inr (m, u)"
    by (simp add: filter_cases_with_errors_def)
  from filter_loop_missing [OF this]
  show "\<forall>cn. cn \<in> set m \<longleftrightarrow>
         (\<exists>a\<in>set chs. \<not> skip_analysis (h a) \<and> disposition (h a) = None \<and>
            (\<exists>c. charge_case (h a) = Some c \<and> closed c \<and> case_number c = cn))"
    by simp
next
  assume "skip_analysis (h a) \<or>
      (disposition (h a) = None \<and> (\<exists>c. charge_case (h a) = Some c \<and> \<not> closed c))"
  then have one: "\<And>m u. filter_loop h (a # post) m u = filter_loop h post m u"
    by (rule filter_loop_skip_one)
  show "filter_cases_with_errors h (pre @ a # post) = filter_cases_with_errors h (pre @ post)"
    unfolding filter_cases_with_errors_def filter_loop_append [of h pre] one ..
qed

theorem missing_disposition_contributors_witness:
  "filter_cases_with_errors sample_charges [0, 1, 2, 3, 4] = Inr ([''B2''], [''B2: Foo'']) \<and>
   (''B2'' \<in> set [''B2''] \<longleftrightarrow>
      (\<exists>a\<in>set [0, 1, 2, 3, 4]. \<not> skip_analysis (sample_charges a) \<and>
           disposition (sample_charges a) = None \<and>
           (\<exists>c. charge_case (sample_charges a) = Some c \<and> closed c \<and> case_number c = ''B2''))) \<and>
   disposition (sample_charges 0) = None \<and> charge_case (sample_charges 0) = Some case_A \<and>
   \<not> closed case_A \<and>
   filter_cases_with_errors sample_charges ([] @ 0 # [1, 2, 3, 4])
     = filter_cases_with_errors sample_charges ([] @ [1, 2, 3, 4]) \<and>
   skip_analysis (sample_charges 4) \<and>
   filter_cases_with_errors sample_charges ([0, 1, 2, 3] @ 4 # [])
     = filter_cases_with_errors sample_charges ([0, 1, 2, 3] @ [])"
proof -
  have r: "filter_cases_with_errors sample_charges [0, 1, 2, 3, 4] = Inr ([''B2''], [''B2: Foo''])"
    by (simp add: filter_cases_with_errors_def set_add_def sample_defs)
  have a0: "disposition (sample_charges 0) = None \<and> charge_case (sample_charges 0) = Some case_A \<and>
     \<not> closed case_A"
    by (simp add: sample_defs)
  have a4: "skip_analysis (sample_charges 4)"
    by (simp add: sample_defs)
  show ?thesis
    using r a0 a4
      missing_disposition_contributors [of sample_charges "[0, 1, 2, 3, 4]" "[''B2'']"
        "[''B2: Foo'']" 0 "[]" "[1, 2, 3, 4]"]
      missing_disposition_contributors [of sample_charges "[0, 1, 2, 3, 4]" "[''B2'']"
        "[''B2: Foo'']" 4 "[0, 1, 2, 3]" "[]"]
    by blast
qed




section \<open>Deduplication\<close>

lemma twice_sets:
  "filter_cases_with_errors twice_charges [0, 1] = Inr ([], [''C1: Foo'', ''C1: Bar''])"
  by (simp add: filter_cases_with_errors_def set_add_def twice_charges_def case_E_def)

text \<open>
  C6, as stated, fails for the unrecognised category: two charges of the one case
  \<open>C1\<close> with the rulings \<open>Foo\<close> and \<open>Bar\<close> give two identifiers, and the case number
  stands twice in the message.
\<close>

theorem case_number_listed_twice:
  "charge_case (twice_charges 0) = Some case_E \<and> charge_case (twice_charges 1) = Some case_E \<and>
   case_number case_E = ''C1'' \<and>
   build_disposition_errors sample_hash twice_charges [0, 1]
     = Inr [''The following cases have charges with an unrecognized disposition.'' @ NL
       @ ''This might be an error in the OECI database. Time analysis is ignoring these charges and may be inaccurate for other charges.''
       @ NL @ ''Case numbers: C1: Foo, C1: Bar''] \<and>
   occurrences ''C1''
     (''The following cases have charges with an unrecognized disposition.'' @ NL
       @ ''This might be an error in the OECI database. Time analysis is ignoring these charges and may be inaccurate for other charges.''
       @ NL @ ''Case numbers: C1: Foo, C1: Bar'') = 2"
proof -
  have occ: "occurrences ''C1''
     (''The following cases have charges with an unrecognized disposition.'' @ NL
       @ ''This might be an error in the OECI database. Time analysis is ignoring these charges and may be inaccurate for other charges.''
       @ NL @ ''Case numbers: C1: Foo, C1: Bar'') = 2"
    by simp
  have b: "build_disposition_errors sample_hash twice_charges [0, 1]
     = Inr [''The following cases have charges with an unrecognized disposition.'' @ NL
       @ ''This might be an error in the OECI database. Time analysis is ignoring these charges and may be inaccurate for other charges.''
       @ NL @ ''Case numbers: C1: Foo, C1: Bar'']"
    unfolding build_disposition_errors_def twice_sets
    by (simp add: build_disposition_error_message_def set_iter_def sample_hash_def)
  show ?thesis
    using occ b by (simp add: twice_charges_def case_E_def)
qed

text \<open>
  C6, amended. For both categories the identifiers are collected into sets, so the
  items a message lists are pairwise different: each identifier is listed at most
  once. For the missing category the identifier is a case number, so a case is listed
  once however many of its charges contribute. For the unrecognised category the
  identifier is \<open>case_number: ruling\<close>, so a case is listed once for each different
  ruling text.
\<close>

theorem identifiers_listed_once:
  assumes "filter_cases_with_errors h chs = Inr (m, u)"
  shows "distinct (set_iter hash m) \<and> distinct (set_iter hash u) \<and>
         (\<forall>x\<in>set (set_iter hash m). \<exists>a\<in>set chs. \<exists>c. charge_case (h a) = Some c \<and> x = case_number c) \<and>
         (\<forall>x\<in>set (set_iter hash u). \<exists>a\<in>set chs. \<exists>c d. charge_case (h a) = Some c \<and>
              disposition (h a) = Some d \<and> x = case_number c @ '': '' @ ruling d)"
proof -
  have l: "filter_loop h chs [] [] = Inr (m, u)"
    using assms by (simp add: filter_cases_with_errors_def)
  have d: "distinct m \<and> distinct u"
    using filter_loop_distinct [OF l] by simp
  have sm: "set (set_iter hash m) = set m" and su: "set (set_iter hash u) = set u"
    by (simp_all add: set_iter_def)
  show ?thesis
    using d filter_loop_missing [OF l] filter_loop_unrecognized [OF l]
    unfolding sm su set_iter_distinct by auto
qed

theorem identifiers_listed_once_witness:
  "filter_cases_with_errors undisposed_charges [0, 1] = Inr ([''C1''], []) \<and>
   distinct (set_iter sample_hash [''C1'']) \<and>
   filter_cases_with_errors twice_charges [0, 1] = Inr ([], [''C1: Foo'', ''C1: Bar'']) \<and>
   distinct (set_iter sample_hash [''C1: Foo'', ''C1: Bar''])"
proof -
  have r: "filter_cases_with_errors undisposed_charges [0, 1] = Inr ([''C1''], [])"
    by (simp add: filter_cases_with_errors_def set_add_def undisposed_charges_def case_E_def)
  show ?thesis
    using r twice_sets
      identifiers_listed_once [OF r, of sample_hash]
      identifiers_listed_once [OF twice_sets, of sample_hash]
    by simp
qed

section \<open>What \<open>run\<close> changes\<close>

lemma fold_eligibility:
  "fold (\<lambda>a h'. h'(a := (h' a)\<lparr>eligibility := Some (w a)\<rparr>)) xs h a
     = (if a \<in> set xs then (h a)\<lparr>eligibility := Some (w a)\<rparr> else h a)"
  by (induction xs arbitrary: h) auto

lemma evaluate_at:
  "TimeAnalyzer_evaluate v groups h a
     = (if a \<in> set (concat (map grouped groups))
        then (h a)\<lparr>eligibility := Some (v h groups a)\<rparr> else h a)"
  unfolding TimeAnalyzer_evaluate_def by (rule fold_eligibility)

lemma run_cases: "cases (rcd (snd (run hash v self s))) = cases (rcd s)"
  by (cases "build_disposition_errors hash (charge_at s) (Record_charges (rcd s))")
     (simp_all add: run_returns run_raises)

lemma run_errors_prefix: "\<exists>es. errors (rcd (snd (run hash v self s))) = errors (rcd s) @ es"
  by (cases "build_disposition_errors hash (charge_at s) (Record_charges (rcd s))")
     (simp_all add: run_returns run_raises)

lemma run_charge_at:
  "charge_at (snd (run hash v self s)) a = charge_at s a \<or>
   (a \<in> set (concat (map grouped (charges_with_summary self))) \<and>
    charge_at (snd (run hash v self s)) a
      = (charge_at s a)\<lparr>eligibility := Some (v (charge_at s) (charges_with_summary self) a)\<rparr>)"
  by (cases "build_disposition_errors hash (charge_at s) (Record_charges (rcd s))")
     (simp_all add: run_returns run_raises evaluate_at)

lemma summarized_set:
  "summarized groups analyzable \<Longrightarrow> set (concat (map grouped groups)) = set analyzable"
  unfolding summarized_def by (rule mset_eq_setD)

lemma sample_summarized:
  "summarized (charges_with_summary (Expunger_init sample_summarize sample_store))
     (without_skippable_charges (charge_at sample_store) (Record_charges (rcd sample_store)))"
  by (simp add: summarized_def Expunger_init_def without_skippable_charges_def
        Record_charges_def sample_defs)

lemma sample_summarize_contract: "summarized (sample_summarize h chs) chs"
  by (induction chs) (simp_all add: summarized_def sample_summarize_def)

text \<open>
  C7. Let the summariser keep its contract: whatever charges it is given, its groups
  hold exactly those charges. Then a charge that is skipped, or that has no
  disposition, is not among the analysable charges, is in no group the constructor
  stores in \<open>charges_with_summary\<close>, and \<open>run\<close> on the constructed instance leaves its
  eligibility slot as it was, so a slot that was unset is unset afterwards.
\<close>

theorem skipped_charges_untouched:
  assumes "skip_analysis (charge_at s a) \<or> disposition (charge_at s a) = None"
    and "\<forall>h chs. summarized (summarize h chs) chs"
  shows "a \<notin> set (without_skippable_charges (charge_at s) (Record_charges (rcd s))) \<and>
         a \<notin> set (concat (map grouped (charges_with_summary (Expunger_init summarize s)))) \<and>
         eligibility (charge_at (snd (run hash v (Expunger_init summarize s) s)) a)
           = eligibility (charge_at s a)"
proof -
  have out: "a \<notin> set (without_skippable_charges (charge_at s) (Record_charges (rcd s)))"
    using assms(1) by (auto simp: without_skippable_charges_def)
  have stored: "charges_with_summary (Expunger_init summarize s)
      = summarize (charge_at s)
          (without_skippable_charges (charge_at s) (Record_charges (rcd s)))"
    by (simp add: Expunger_init_def Let_def)
  have "summarized (summarize (charge_at s)
            (without_skippable_charges (charge_at s) (Record_charges (rcd s))))
          (without_skippable_charges (charge_at s) (Record_charges (rcd s)))"
    using assms(2) by blast
  then have "set (concat (map grouped (charges_with_summary (Expunger_init summarize s))))
      = set (without_skippable_charges (charge_at s) (Record_charges (rcd s)))"
    unfolding stored by (rule summarized_set)
  with out
  have grp: "a \<notin> set (concat (map grouped (charges_with_summary (Expunger_init summarize s))))"
    by simp
  then have "charge_at (snd (run hash v (Expunger_init summarize s) s)) a = charge_at s a"
    using run_charge_at [of hash v "Expunger_init summarize s" s a] by blast
  with out grp show ?thesis by simp
qed

theorem skipped_charges_untouched_witness:
  "(\<forall>h chs. summarized (sample_summarize h chs) chs) \<and>
   skip_analysis (charge_at sample_store 4) \<and> disposition (charge_at sample_store 1) = None \<and>
   eligibility (charge_at sample_store 4) = None \<and> eligibility (charge_at sample_store 1) = None \<and>
   without_skippable_charges (charge_at sample_store) (Record_charges (rcd sample_store)) = [2, 3] \<and>
   4 \<notin> set (concat (map grouped
                (charges_with_summary (Expunger_init sample_summarize sample_store)))) \<and>
   1 \<notin> set (concat (map grouped
                (charges_with_summary (Expunger_init sample_summarize sample_store)))) \<and>
   eligibility (charge_at (snd (run sample_hash sample_verdict
        (Expunger_init sample_summarize sample_store) sample_store)) 4) = None \<and>
   eligibility (charge_at (snd (run sample_hash sample_verdict
        (Expunger_init sample_summarize sample_store) sample_store)) 1) = None"
proof -
  have c: "\<forall>h chs. summarized (sample_summarize h chs) chs"
    by (simp add: sample_summarize_contract)
  have a4: "skip_analysis (charge_at sample_store 4)"
    and a1: "disposition (charge_at sample_store 1) = None"
    and e: "eligibility (charge_at sample_store 4) = None"
       "eligibility (charge_at sample_store 1) = None"
    and an: "without_skippable_charges (charge_at sample_store) (Record_charges (rcd sample_store))
       = [2, 3]"
    by (simp_all add: without_skippable_charges_def Record_charges_def sample_defs)
  from a4 have h4: "skip_analysis (charge_at sample_store 4) \<or>
      disposition (charge_at sample_store 4) = None"
    by simp
  from a1 have h1: "skip_analysis (charge_at sample_store 1) \<or>
      disposition (charge_at sample_store 1) = None"
    by simp
  show ?thesis
    using c a4 a1 e an
      skipped_charges_untouched [OF h4 c, of sample_hash sample_verdict]
      skipped_charges_untouched [OF h1 c, of sample_hash sample_verdict]
    by simp
qed

text \<open>
  C8. \<open>run\<close> leaves the cases of the record (and with them the addresses of their
  charges) as they were; the error log afterwards is the log before followed by the
  appended strings; every charge object differs from its state before at most in its
  eligibility slot, so no disposition or back-reference changes; and when the groups
  hold exactly the analysable charges, a charge object that is not a charge of the
  record is not changed at all.
\<close>

theorem run_frame:
  "cases (rcd (snd (run hash v (Expunger_init summarize s) s))) = cases (rcd s) \<and>
   (\<exists>es. errors (rcd (snd (run hash v (Expunger_init summarize s) s))) = errors (rcd s) @ es) \<and>
   (\<forall>a. charge_at (snd (run hash v (Expunger_init summarize s) s)) a
          = (charge_at s a)\<lparr>eligibility :=
               eligibility (charge_at (snd (run hash v (Expunger_init summarize s) s)) a)\<rparr>) \<and>
   (summarized (charges_with_summary (Expunger_init summarize s))
           (without_skippable_charges (charge_at s) (Record_charges (rcd s))) \<longrightarrow>
    (\<forall>a. a \<notin> set (Record_charges (rcd s)) \<longrightarrow>
          charge_at (snd (run hash v (Expunger_init summarize s) s)) a = charge_at s a))"
proof (intro conjI allI impI)
  show "cases (rcd (snd (run hash v (Expunger_init summarize s) s))) = cases (rcd s)"
    by (rule run_cases)
next
  show "\<exists>es. errors (rcd (snd (run hash v (Expunger_init summarize s) s))) = errors (rcd s) @ es"
    by (rule run_errors_prefix)
next
  fix a
  show "charge_at (snd (run hash v (Expunger_init summarize s) s)) a
          = (charge_at s a)\<lparr>eligibility :=
               eligibility (charge_at (snd (run hash v (Expunger_init summarize s) s)) a)\<rparr>"
    using run_charge_at [of hash v "Expunger_init summarize s" s a] by auto
next
  fix a
  assume sm: "summarized (charges_with_summary (Expunger_init summarize s))
           (without_skippable_charges (charge_at s) (Record_charges (rcd s)))"
    and "a \<notin> set (Record_charges (rcd s))"
  then have "a \<notin> set (without_skippable_charges (charge_at s) (Record_charges (rcd s)))"
    by (simp add: without_skippable_charges_def)
  then have "a \<notin> set (concat (map grouped (charges_with_summary (Expunger_init summarize s))))"
    using summarized_set [OF sm] by simp
  then show "charge_at (snd (run hash v (Expunger_init summarize s) s)) a = charge_at s a"
    using run_charge_at [of hash v "Expunger_init summarize s" s a] by blast
qed

theorem run_frame_witness:
  "summarized (charges_with_summary (Expunger_init sample_summarize sample_store))
     (without_skippable_charges (charge_at sample_store) (Record_charges (rcd sample_store))) \<and>
   7 \<notin> set (Record_charges (rcd sample_store)) \<and>
   charge_at (snd (run sample_hash sample_verdict
        (Expunger_init sample_summarize sample_store) sample_store)) 7 = charge_at sample_store 7 \<and>
   cases (rcd (snd (run sample_hash sample_verdict
        (Expunger_init sample_summarize sample_store) sample_store))) = cases (rcd sample_store) \<and>
   take 1 (errors (rcd (snd (run sample_hash sample_verdict
        (Expunger_init sample_summarize sample_store) sample_store)))) = [''earlier'']"
proof -
  have n: "7 \<notin> set (Record_charges (rcd sample_store))"
    by (simp add: Record_charges_def sample_defs)
  have old: "errors (rcd sample_store) = [''earlier'']"
    by (simp add: sample_defs)
  show ?thesis
    using sample_summarized n
      run_frame [of sample_hash sample_verdict sample_summarize sample_store]
    unfolding old by auto
qed

section \<open>Passwords that are too short\<close>

lemmas users_sample_defs = sample_deps_def sample_check_data_fields_def sample_user_create_def
  empty_world_def short_password_def full_request_def bare_request_def long_request_def

text \<open>
  C10, as stated, fails: a request whose password is a string of seven characters but
  which lacks the other required fields is answered by the field check, with status
  400 and not 422.
\<close>

theorem short_password_answered_400:
  "subscript (get_json bare_request) ''password'' = Inr short_password \<and>
   short_password = JStr [115, 104, 111, 114, 116, 55, 55] \<and>
   py_len short_password = Inr 7 \<and>
   Users_post sample_deps bare_request empty_world
     = (Inl (HTTPException 400 ''missing one or more required fields''), empty_world)"
  by (simp add: Users_post_def post_body_def error_def users_sample_defs)

text \<open>
  C10, amended. For every request whose \<open>password\<close> field is a string of fewer than
  eight characters, \<open>post\<close> ends in an exception and leaves the user table and the
  call log as they were: \<open>user.create\<close> is not invoked, no user is created and no
  password hash is computed. When the request passes the admin gate and the check
  of the required fields, the response is the abort with status 422.
\<close>

theorem short_password_rejected:
  assumes "subscript (get_json request) ''password'' = Inr (JStr p)" and "length p < 8"
  shows "snd (Users_post deps request w) = w \<and>
         (\<exists>e. fst (Users_post deps request w) = Inl e) \<and>
         (admin_auth_required deps request w = None \<and>
          check_data_fields deps (get_json request)
            [''email'', ''name'', ''group_name'', ''password'', ''admin''] = None \<longrightarrow>
          Users_post deps request w
            = (Inl (HTTPException 422 ''New password is less than 8 characters long!''), w))"
proof -
  have nn: "get_json request \<noteq> JNull"
    using assms(1) by auto
  have body: "post_body deps request w =
     (case check_data_fields deps (get_json request)
             [''email'', ''name'', ''group_name'', ''password'', ''admin''] of
        Some e \<Rightarrow> (Inl e, w)
      | None \<Rightarrow> (Inl (HTTPException 422 ''New password is less than 8 characters long!''), w))"
    using nn assms by (simp add: post_body_def error_def Let_def split: option.splits)
  show ?thesis
    unfolding Users_post_def body by (simp split: option.splits)
qed

theorem short_password_rejected_witness:
  "subscript (get_json full_request) ''password'' = Inr (JStr [115, 104, 111, 114, 116, 55, 55]) \<and>
   length [115, 104, 111, 114, 116, 55, 55 :: nat] < 8 \<and>
   admin_auth_required sample_deps full_request empty_world = None \<and>
   check_data_fields sample_deps (get_json full_request)
     [''email'', ''name'', ''group_name'', ''password'', ''admin''] = None \<and>
   Users_post sample_deps full_request empty_world
     = (Inl (HTTPException 422 ''New password is less than 8 characters long!''), empty_world) \<and>
   snd (Users_post sample_deps bare_request empty_world) = empty_world \<and>
   calls (snd (Users_post sample_deps long_request empty_world))
     = [Call_generate_password_hash (JStr [49, 50, 51, 52, 53, 54, 55, 56]),
        Call_user_create (JStr [97]) (JStr [98]) (JStr [99]) ''hashed'' (JBool False)]"
proof -
  have p: "subscript (get_json full_request) ''password''
      = Inr (JStr [115, 104, 111, 114, 116, 55, 55])"
    and p': "subscript (get_json bare_request) ''password''
      = Inr (JStr [115, 104, 111, 114, 116, 55, 55])"
    and l: "length [115, 104, 111, 114, 116, 55, 55 :: nat] < 8"
    and a: "admin_auth_required sample_deps full_request empty_world = None"
    and c: "check_data_fields sample_deps (get_json full_request)
        [''email'', ''name'', ''group_name'', ''password'', ''admin''] = None"
    by (simp_all add: users_sample_defs)
  have long: "calls (snd (Users_post sample_deps long_request empty_world))
     = [Call_generate_password_hash (JStr [49, 50, 51, 52, 53, 54, 55, 56]),
        Call_user_create (JStr [97]) (JStr [98]) (JStr [99]) ''hashed'' (JBool False)]"
    by (simp add: Users_post_def post_body_def create_and_respond_def error_def Let_def
          users_sample_defs)
  show ?thesis
    using p l a c long
      short_password_rejected [OF p l, of sample_deps empty_world]
      short_password_rejected [OF p' l, of sample_deps empty_world]
    by blast
qed

end
